theory Spec2Isabelle
  imports Complex_Main
begin

section \<open>The layout splitter \<^verbatim>\<open>convertuiJsonChildToMultipleJson.py\<close>\<close>

text \<open>
  The script reads one JSON document, takes the sequence under \<^verbatim>\<open>layout.children\<close>,
  gives every child a name, turns the name into a file name and writes one document
  per child. The development below embeds the script function by function: the values
  \<^verbatim>\<open>json.load\<close> produces, Python's truth test, membership test and iteration on them,
  the name resolver, the sanitiser that stands inline in the conversion loop, the loop
  itself and the exit status of \<^verbatim>\<open>main\<close>.
\<close>

subsection \<open>Python values\<close>

text \<open>
  A Python \<^verbatim>\<open>str\<close> is a sequence of Unicode code points, and iterating over it yields
  them one by one; a code point is a natural number here. \<open>str\<close> turns an ASCII literal
  of the source into such a sequence.
\<close>

type_synonym codepoint = nat
type_synonym pystr = "codepoint list"

definition str :: "string \<Rightarrow> pystr" where
  "str s = map of_char s"

text \<open>
  The values of \<^verbatim>\<open>json.load\<close>: \<^verbatim>\<open>None\<close>, \<^verbatim>\<open>bool\<close>, \<^verbatim>\<open>int\<close>, \<^verbatim>\<open>float\<close>, \<^verbatim>\<open>str\<close>, \<^verbatim>\<open>list\<close> and
  \<^verbatim>\<open>dict\<close>. A \<^verbatim>\<open>dict\<close> keeps the order in which its keys were inserted and
  \<^verbatim>\<open>json.dump\<close> writes them in that order, so an object is an association list; the
  dictionaries \<^verbatim>\<open>json.load\<close> builds have pairwise distinct keys. A float is a real
  number, an infinity or NaN, all of which \<^verbatim>\<open>json.load\<close> reads. \<open>JNull\<close> is Python's
  \<^verbatim>\<open>None\<close>: the resolver's \<^verbatim>\<open>return None\<close> and a JSON \<^verbatim>\<open>null\<close> are the same value.
\<close>

datatype pyfloat = Finite real | PosInf | NegInf | NaN

datatype json =
    JNull
  | JBool bool
  | JInt int
  | JFloat pyfloat
  | JStr pystr
  | JArr "json list"
  | JObj "(pystr \<times> json) list"

datatype pyerror = TypeError | AttributeError | KeyError | OSError | FileExistsError

text \<open>The literal keys and names of the source.\<close>

definition k_params :: pystr where "k_params = str ''params''"
definition k_name :: pystr where "k_name = str ''name''"
definition k_children :: pystr where "k_children = str ''children''"
definition k_layout :: pystr where "k_layout = str ''layout''"

text \<open>The truth test of \<^verbatim>\<open>if name:\<close> and \<^verbatim>\<open>if not safe_name:\<close>.\<close>

fun truthy :: "json \<Rightarrow> bool" where
  "truthy JNull = False"
| "truthy (JBool b) = b"
| "truthy (JInt n) = (n \<noteq> 0)"
| "truthy (JFloat x) = (x \<noteq> Finite 0)"
| "truthy (JStr s) = (s \<noteq> [])"
| "truthy (JArr xs) = (xs \<noteq> [])"
| "truthy (JObj kvs) = (kvs \<noteq> [])"

text \<open>
  Iteration, as \<^verbatim>\<open>for c in name\<close> and \<^verbatim>\<open>enumerate(children)\<close> perform it: a list yields
  its elements, a string its characters as strings of length one, a dictionary its
  keys; anything else raises \<^verbatim>\<open>TypeError\<close> (not iterable).
\<close>

fun py_iter :: "json \<Rightarrow> pyerror + json list" where
  "py_iter (JArr xs) = Inr xs"
| "py_iter (JStr s) = Inr (map (\<lambda>c. JStr [c]) s)"
| "py_iter (JObj kvs) = Inr (map (\<lambda>kv. JStr (fst kv)) kvs)"
| "py_iter _ = Inl TypeError"

text \<open>
  The membership test \<^verbatim>\<open>key in data\<close> for a string \<open>key\<close>: a key of a dictionary, an
  element of a list, a substring of a string; \<^verbatim>\<open>TypeError\<close> on the other values.
\<close>

fun is_substring :: "pystr \<Rightarrow> pystr \<Rightarrow> bool" where
  "is_substring key [] = (key = [])"
| "is_substring key (c # cs) = (take (length key) (c # cs) = key \<or> is_substring key cs)"

fun py_contains :: "pystr \<Rightarrow> json \<Rightarrow> pyerror + bool" where
  "py_contains key (JObj kvs) = Inr (map_of kvs key \<noteq> None)"
| "py_contains key (JArr xs) = Inr (List.member xs (JStr key))"
| "py_contains key (JStr s) = Inr (is_substring key s)"
| "py_contains key _ = Inl TypeError"

text \<open>
  Subscription \<^verbatim>\<open>data[key]\<close> with a string key: the value of a dictionary
  (\<^verbatim>\<open>KeyError\<close> when absent), \<^verbatim>\<open>TypeError\<close> on every other value.
\<close>

fun py_getitem :: "json \<Rightarrow> pystr \<Rightarrow> pyerror + json" where
  "py_getitem (JObj kvs) key = (case map_of kvs key of None \<Rightarrow> Inl KeyError | Some v \<Rightarrow> Inr v)"
| "py_getitem _ key = Inl TypeError"

subsection \<open>Character classes\<close>

text \<open>
  \<^verbatim>\<open>str.isalnum\<close> and \<^verbatim>\<open>str.isspace\<close> read the Unicode database of the interpreter,
  which is not part of the repository. For the ASCII range the classes are written
  out; above it they are the parameter \<open>U\<close> of everything that follows. In the database
  no code point is both alphanumeric and white space, so \<open>U\<close> gives one class per code
  point.
\<close>

datatype cclass = Alnum | Space | Other

definition ascii_class :: "codepoint \<Rightarrow> cclass" where
  "ascii_class c =
     (if (48 \<le> c \<and> c \<le> 57) \<or> (65 \<le> c \<and> c \<le> 90) \<or> (97 \<le> c \<and> c \<le> 122) then Alnum
      else if (9 \<le> c \<and> c \<le> 13) \<or> (28 \<le> c \<and> c \<le> 32) then Space
      else Other)"

definition char_class :: "(codepoint \<Rightarrow> cclass) \<Rightarrow> codepoint \<Rightarrow> cclass" where
  "char_class U c = (if c < 128 then ascii_class c else U c)"

definition isalnum :: "(codepoint \<Rightarrow> cclass) \<Rightarrow> pystr \<Rightarrow> bool" where
  "isalnum U s = (s \<noteq> [] \<and> list_all (\<lambda>c. char_class U c = Alnum) s)"

definition isspace :: "(codepoint \<Rightarrow> cclass) \<Rightarrow> codepoint \<Rightarrow> bool" where
  "isspace U c = (char_class U c = Space)"

definition rstrip :: "(codepoint \<Rightarrow> cclass) \<Rightarrow> pystr \<Rightarrow> pystr" where
  "rstrip U s = rev (dropWhile (isspace U) (rev s))"

subsection \<open>The name resolver\<close>

text \<open>
  \<^verbatim>\<open>extract_name_from_object\<close>, lines 12 to 30. \<open>params_name\<close> is the guard of line 16
  with the value line 17 returns: \<open>Some\<close> when \<^verbatim>\<open>params\<close> is a dictionary that has
  the key \<^verbatim>\<open>name\<close>. \<open>child_names\<close> is the \<^verbatim>\<open>for\<close> loop of lines 25 to 28; when it
  finds nothing the function falls through to the final \<^verbatim>\<open>return None\<close>.
\<close>

definition params_name :: "(pystr \<times> json) list \<Rightarrow> json option" where
  "params_name obj =
     (case map_of obj k_params of
        Some (JObj params) \<Rightarrow> map_of params k_name
      | _ \<Rightarrow> None)"

function (sequential) extract_name_from_object :: "json \<Rightarrow> json"
  and child_names :: "json list \<Rightarrow> json" where
  "extract_name_from_object (JObj obj) =
     (case params_name obj of
        Some name \<Rightarrow> name
      | None \<Rightarrow>
         (case map_of obj k_name of
            Some name \<Rightarrow> name
          | None \<Rightarrow>
             (case map_of obj k_children of
                Some (JArr children) \<Rightarrow> child_names children
              | _ \<Rightarrow> JNull)))"
| "extract_name_from_object _ = JNull"
| "child_names [] = JNull"
| "child_names (child # rest) =
     (let name = extract_name_from_object child
      in if truthy name then name else child_names rest)"
  by pat_completeness auto
termination
proof (relation "measure (\<lambda>x. case x of Inl j \<Rightarrow> size j | Inr cs \<Rightarrow> size_list size cs)")
  show "wf (measure (\<lambda>x. case x of Inl j \<Rightarrow> size j | Inr cs \<Rightarrow> size_list size cs))"
    by simp
next
  fix obj :: "(pystr \<times> json) list" and x2 and children :: "json list"
  assume found: "map_of obj k_children = Some x2" "x2 = JArr children"
  have "map_of kvs k = Some v \<Longrightarrow> size v < Suc (size_list (size_prod (\<lambda>x. 0) size) kvs)"
    for kvs :: "(pystr \<times> json) list" and k v
    by (induction kvs) (auto split: if_splits)
  from this [of obj k_children "JArr children"] found
  show "(Inr children, Inl (JObj obj))
      \<in> measure (\<lambda>x. case x of Inl j \<Rightarrow> size j | Inr cs \<Rightarrow> size_list size cs)"
    by simp
qed simp_all

subsection \<open>Naming the children\<close>

text \<open>
  The decimal digits of an index, as the f-string \<^verbatim>\<open>f"child_{i}"\<close> prints them.
\<close>

fun decimal :: "nat \<Rightarrow> pystr" where
  "decimal n = (if n < 10 then [48 + n] else decimal (n div 10) @ [48 + n mod 10])"

declare decimal.simps [simp del]

text \<open>
  \<^verbatim>\<open>find_named_children\<close>, lines 32 to 44. The argument is whatever stands under
  \<^verbatim>\<open>layout.children\<close>; \<^verbatim>\<open>enumerate\<close> iterates over it.
\<close>

definition find_named_children :: "json \<Rightarrow> pyerror + (json \<times> json) list" where
  "find_named_children children =
     (case py_iter children of
        Inl e \<Rightarrow> Inl e
      | Inr cs \<Rightarrow>
          Inr (map (\<lambda>(i, child).
                 let name = extract_name_from_object child
                 in if truthy name then (name, child)
                    else (JStr (str ''child_'' @ decimal i), child))
               (enumerate 0 cs)))"

subsection \<open>The file name of a child\<close>

text \<open>
  Line 77: the generator \<^verbatim>\<open>c for c in name if c.isalnum() or c in ('-', '_')\<close> joined by
  \<^verbatim>\<open>"".join\<close>. An element that is not a string has no method \<^verbatim>\<open>isalnum\<close>.
\<close>

fun join_kept :: "(codepoint \<Rightarrow> cclass) \<Rightarrow> json list \<Rightarrow> pyerror + pystr" where
  "join_kept U [] = Inr []"
| "join_kept U (JStr c # cs) =
     (case join_kept U cs of
        Inl e \<Rightarrow> Inl e
      | Inr r \<Rightarrow> Inr (if isalnum U c \<or> c = str ''-'' \<or> c = str ''_'' then c @ r else r))"
| "join_kept U (_ # cs) = Inl AttributeError"

text \<open>Lines 77 to 79: filter, \<^verbatim>\<open>rstrip()\<close>, and \<^verbatim>\<open>unnamed\<close> for an empty result.\<close>

definition safe_name :: "(codepoint \<Rightarrow> cclass) \<Rightarrow> json \<Rightarrow> pyerror + pystr" where
  "safe_name U name =
     (case py_iter name of
        Inl e \<Rightarrow> Inl e
      | Inr cs \<Rightarrow>
          (case join_kept U cs of
             Inl e \<Rightarrow> Inl e
           | Inr joined \<Rightarrow>
               (let s = rstrip U joined
                in Inr (if s = [] then str ''unnamed'' else s))))"

subsection \<open>Files and the output directory\<close>

text \<open>
  \<^verbatim>\<open>json.dump\<close> writes into a file opened with \<^verbatim>\<open>encoding='utf-8'\<close> and
  \<^verbatim>\<open>ensure_ascii=False\<close>: a string or key with a surrogate code point, which
  \<^verbatim>\<open>json.load\<close> builds from an unpaired escape such as \<^verbatim>\<open>"\ud800"\<close>, cannot be encoded,
  and the write raises \<^verbatim>\<open>UnicodeEncodeError\<close> after \<^verbatim>\<open>open\<close> has emptied the file.
\<close>

definition surrogate :: "codepoint \<Rightarrow> bool" where
  "surrogate c = (55296 \<le> c \<and> c \<le> 57343)"

fun encodable :: "json \<Rightarrow> bool" where
  "encodable (JStr s) = (\<forall>c \<in> set s. \<not> surrogate c)"
| "encodable (JArr xs) = (\<forall>x \<in> set xs. encodable x)"
| "encodable (JObj kvs) =
     (\<forall>kv \<in> set kvs. (\<forall>c \<in> set (fst kv). \<not> surrogate c) \<and> encodable (snd kv))"
| "encodable _ = True"

text \<open>
  What a file of the output directory holds: \<open>Text d\<close> is the complete text that
  \<^verbatim>\<open>json.dump(d, f, indent=2, ensure_ascii=False)\<close> writes, a function of the value \<open>d\<close> and
  of the order of its keys; \<open>Cut d\<close> is what is left of that text when the write raised
  part way. File names are taken as the file system gives them, one file per name.

  The output path is not there yet, is a directory, or is such that \<^verbatim>\<open>mkdir\<close> raises
  (a regular file stands there, or the directory may not be created).
\<close>

datatype content = Text json | Cut json

datatype dir_state = Absent | Present | Blocked pyerror

text \<open>What the script prints, one constructor per \<^verbatim>\<open>print\<close> call.\<close>

datatype message =
    NotFoundMsg
  | InvalidJSONMsg
  | SchemaErrorMsg
  | FoundMsg nat
  | CreatedMsg pystr
  | FailedMsg pystr
  | CompletedMsg
  | HeaderMsg
  | SuccessBanner
  | FailureBanner

record state =
  files :: "pystr \<rightharpoonup> content"
  out_dir :: dir_state
  printed :: "message list"

definition say :: "message \<Rightarrow> state \<Rightarrow> state" where
  "say m s = s\<lparr>printed := printed s @ [m]\<rparr>"

text \<open>
  Line 62, \<^verbatim>\<open>output_path.mkdir(parents=True, exist_ok=True)\<close>: it stands outside every
  \<^verbatim>\<open>try\<close>, so its exception leaves the function.
\<close>

definition mkdir_parents :: "state \<Rightarrow> pyerror + state" where
  "mkdir_parents s =
     (case out_dir s of
        Blocked e \<Rightarrow> Inl e
      | _ \<Rightarrow> Inr (s\<lparr>out_dir := Present\<rparr>))"

subsection \<open>The conversion\<close>

text \<open>Lines 85 to 89.\<close>

definition child_data :: "json \<Rightarrow> json" where
  "child_data child = JObj [(k_layout, JObj [(k_children, JArr [child])])]"

text \<open>
  Lines 92 to 97, one \<^verbatim>\<open>try\<close> around \<^verbatim>\<open>open\<close>, \<^verbatim>\<open>json.dump\<close> and the line
  \<^verbatim>\<open>Created\<close>. \<open>W\<close> says which file names the environment lets the script open for
  writing. Where \<^verbatim>\<open>open(filepath, 'w')\<close> raises, the file is as it was. Where it succeeds
  the file is emptied and \<^verbatim>\<open>json.dump\<close> runs: it completes, or it raises on a
  surrogate and leaves a cut text. Either exception is caught in line 96, which prints
  the line \<^verbatim>\<open>Failed\<close>.
\<close>

definition write_file :: "(pystr \<Rightarrow> bool) \<Rightarrow> pystr \<Rightarrow> json \<Rightarrow> state \<Rightarrow> state" where
  "write_file W filename doc s =
     (if W filename
      then if encodable doc
           then say (CreatedMsg filename) (s\<lparr>files := (files s)(filename \<mapsto> Text doc)\<rparr>)
           else say (FailedMsg filename) (s\<lparr>files := (files s)(filename \<mapsto> Cut doc)\<rparr>)
      else say (FailedMsg filename) s)"

text \<open>
  The loop of lines 75 to 97. An exception of the sanitiser is raised outside the
  \<^verbatim>\<open>try\<close> and leaves the loop.
\<close>

fun write_children ::
  "(codepoint \<Rightarrow> cclass) \<Rightarrow> (pystr \<Rightarrow> bool) \<Rightarrow> (json \<times> json) list \<Rightarrow> state
     \<Rightarrow> pyerror option \<times> state" where
  "write_children U W [] s = (None, s)"
| "write_children U W ((name, child) # rest) s =
     (case safe_name U name of
        Inl e \<Rightarrow> (Some e, s)
      | Inr safe \<Rightarrow>
          (let filename = safe @ str ''.json''
           in write_children U W rest (write_file W filename (child_data child) s)))"

text \<open>
  Lines 65 to 69: the test \<^verbatim>\<open>'layout' not in data or 'children' not in data['layout']\<close>
  and the read of \<^verbatim>\<open>data['layout']['children']\<close>. \<open>Inr None\<close> is the branch that reports
  the missing structure.
\<close>

definition layout_children :: "json \<Rightarrow> pyerror + json option" where
  "layout_children data =
     (case py_contains k_layout data of
        Inl e \<Rightarrow> Inl e
      | Inr False \<Rightarrow> Inr None
      | Inr True \<Rightarrow>
          (case py_getitem data k_layout of
             Inl e \<Rightarrow> Inl e
           | Inr layout \<Rightarrow>
               (case py_contains k_children layout of
                  Inl e \<Rightarrow> Inl e
                | Inr False \<Rightarrow> Inr None
                | Inr True \<Rightarrow>
                    (case py_getitem layout k_children of
                       Inl e \<Rightarrow> Inl e
                     | Inr children \<Rightarrow> Inr (Some children)))))"

text \<open>
  The outcome of lines 50 to 52: the two exceptions that lines 53 to 58 handle, any
  other exception of \<^verbatim>\<open>open\<close> or \<^verbatim>\<open>json.load\<close> (not handled), or the parsed document.

  The input path is a command line argument (lines 109 to 112) and may name a file of
  the output directory, which the loop can then overwrite. An input file elsewhere is
  given by the outcome of reading it; an input file of the output directory is read
  from the state. \<open>L\<close> is \<^verbatim>\<open>json.load\<close> on the text of a file, with \<open>None\<close> for a
  \<^verbatim>\<open>JSONDecodeError\<close>: library code, a parameter like \<open>U\<close>.
\<close>

datatype read_result = FileNotFound | InvalidJSON | ReadRaised pyerror | Loaded json

datatype input_file = Elsewhere read_result | In_output_dir pystr

definition read_input :: "(content \<Rightarrow> json option) \<Rightarrow> input_file \<Rightarrow> state \<Rightarrow> read_result" where
  "read_input L input s =
     (case input of
        Elsewhere r \<Rightarrow> r
      | In_output_dir filename \<Rightarrow>
          (case files s filename of
             None \<Rightarrow> FileNotFound
           | Some c \<Rightarrow> (case L c of None \<Rightarrow> InvalidJSON | Some data \<Rightarrow> Loaded data)))"

datatype outcome = Returned bool | Raised pyerror

text \<open>\<^verbatim>\<open>convert_ui_json_to_multiple_files\<close>, lines 46 to 100.\<close>

definition convert_ui_json_to_multiple_files ::
  "(codepoint \<Rightarrow> cclass) \<Rightarrow> (pystr \<Rightarrow> bool) \<Rightarrow> (content \<Rightarrow> json option) \<Rightarrow> input_file
     \<Rightarrow> state \<Rightarrow> outcome \<times> state" where
  "convert_ui_json_to_multiple_files U W L input s =
     (case read_input L input s of
        FileNotFound \<Rightarrow> (Returned False, say NotFoundMsg s)
      | InvalidJSON \<Rightarrow> (Returned False, say InvalidJSONMsg s)
      | ReadRaised e \<Rightarrow> (Raised e, s)
      | Loaded data \<Rightarrow>
          (case mkdir_parents s of
             Inl e \<Rightarrow> (Raised e, s)
           | Inr s1 \<Rightarrow>
               (case layout_children data of
                  Inl e \<Rightarrow> (Raised e, s1)
                | Inr None \<Rightarrow> (Returned False, say SchemaErrorMsg s1)
                | Inr (Some children) \<Rightarrow>
                    (case find_named_children children of
                       Inl e \<Rightarrow> (Raised e, s1)
                     | Inr named_children \<Rightarrow>
                         (case write_children U W named_children
                                 (say (FoundMsg (length named_children)) s1) of
                            (Some e, s2) \<Rightarrow> (Raised e, s2)
                          | (None, s2) \<Rightarrow> (Returned True, say CompletedMsg s2))))))"

text \<open>
  \<^verbatim>\<open>main\<close>, lines 102 to 124, for the input file that the arguments choose: the exit
  status of the process and the final state. An exception that nothing handles ends
  the interpreter with status 1.
\<close>

definition main ::
  "(codepoint \<Rightarrow> cclass) \<Rightarrow> (pystr \<Rightarrow> bool) \<Rightarrow> (content \<Rightarrow> json option) \<Rightarrow> input_file
     \<Rightarrow> state \<Rightarrow> nat \<times> state" where
  "main U W L input s =
     (case convert_ui_json_to_multiple_files U W L input (say HeaderMsg s) of
        (Returned True, s') \<Rightarrow> (0, say SuccessBanner s')
      | (Returned False, s') \<Rightarrow> (1, say FailureBanner s')
      | (Raised e, s') \<Rightarrow> (1, s'))"

subsection \<open>The writes of a run\<close>

text \<open>
  Two notions for the proofs. \<open>attempts\<close> lists what the loop hands to \<^verbatim>\<open>open\<close> and
  \<^verbatim>\<open>json.dump\<close>, file name and document, child by child up to the first name the
  sanitiser raises on, together with that exception. \<open>performed\<close> is the state after
  these attempts: the last attempt that could open a file name decides what the file
  holds, and every attempt prints its line.
\<close>

fun attempts ::
  "(codepoint \<Rightarrow> cclass) \<Rightarrow> (json \<times> json) list \<Rightarrow> (pystr \<times> json) list \<times> pyerror option" where
  "attempts U [] = ([], None)"
| "attempts U ((name, child) # rest) =
     (case safe_name U name of
        Inl e \<Rightarrow> ([], Some e)
      | Inr safe \<Rightarrow>
          (case attempts U rest of
             (ws, e) \<Rightarrow> ((safe @ str ''.json'', child_data child) # ws, e)))"

text \<open>The number that a string of decimal digits denotes.\<close>

definition digits_value :: "pystr \<Rightarrow> nat" where
  "digits_value ds = foldl (\<lambda>a d. 10 * a + (d - 48)) 0 ds"

text \<open>What a file holds once \<^verbatim>\<open>open\<close> has succeeded and \<^verbatim>\<open>json.dump\<close> has run.\<close>

definition stored :: "json \<Rightarrow> content" where
  "stored doc = (if encodable doc then Text doc else Cut doc)"

definition performed :: "(pystr \<Rightarrow> bool) \<Rightarrow> (pystr \<times> json) list \<Rightarrow> state \<Rightarrow> state" where
  "performed W ws s =
     s\<lparr>files := files s ++
         map_of (rev (map (\<lambda>w. (fst w, stored (snd w))) (filter (\<lambda>w. W (fst w)) ws))),
       printed := printed s @
         map (\<lambda>w. if W (fst w) \<and> encodable (snd w) then CreatedMsg (fst w)
                   else FailedMsg (fst w)) ws\<rparr>"

text \<open>
  For a parsed document, what the run attempts to write and how it ends once \<^verbatim>\<open>mkdir\<close>
  has succeeded.
\<close>

definition document_attempts :: "(codepoint \<Rightarrow> cclass) \<Rightarrow> json \<Rightarrow> (pystr \<times> json) list" where
  "document_attempts U data =
     (case layout_children data of
        Inr (Some children) \<Rightarrow>
          (case find_named_children children of
             Inr named \<Rightarrow> fst (attempts U named)
           | Inl e \<Rightarrow> [])
      | _ \<Rightarrow> [])"

definition document_outcome :: "(codepoint \<Rightarrow> cclass) \<Rightarrow> json \<Rightarrow> outcome" where
  "document_outcome U data =
     (case layout_children data of
        Inl e \<Rightarrow> Raised e
      | Inr None \<Rightarrow> Returned False
      | Inr (Some children) \<Rightarrow>
          (case find_named_children children of
             Inl e \<Rightarrow> Raised e
           | Inr named \<Rightarrow>
               (case snd (attempts U named) of
                  Some e \<Rightarrow> Raised e
                | None \<Rightarrow> Returned True)))"

subsection \<open>Inputs for the examples\<close>

text \<open>
  The state before a run on an output directory that does not exist yet, the document
  \<^verbatim>\<open>{"layout": {"children": [...]}}\<close> with the given children, character classes with
  nothing alphanumeric or white above ASCII, and a \<^verbatim>\<open>json.load\<close> that returns the value
  from a complete text and rejects a cut one.
\<close>

definition initial :: state where
  "initial = \<lparr>files = Map.empty, out_dir = Absent, printed = []\<rparr>"

definition load_complete :: "content \<Rightarrow> json option" where
  "load_complete c = (case c of Text d \<Rightarrow> Some d | Cut d \<Rightarrow> None)"

definition layout_doc :: "json list \<Rightarrow> json" where
  "layout_doc cs = JObj [(k_layout, JObj [(k_children, JArr cs)])]"

definition ascii_only :: "codepoint \<Rightarrow> cclass" where
  "ascii_only c = Other"

section \<open>Properties\<close>

subsection \<open>Auxiliary facts\<close>

lemma key_literals:
  "k_params = [112, 97, 114, 97, 109, 115]"
  "k_name = [110, 97, 109, 101]"
  "k_children = [99, 104, 105, 108, 100, 114, 101, 110]"
  "k_layout = [108, 97, 121, 111, 117, 116]"
  by (simp_all add: k_params_def k_name_def k_children_def k_layout_def str_def)

lemma decimal_digit: "n < 10 \<Longrightarrow> decimal n = [48 + n]"
  by (simp add: decimal.simps)

lemma decimal_step: "10 \<le> n \<Longrightarrow> decimal n = decimal (n div 10) @ [48 + n mod 10]"
  by (subst decimal.simps) simp

lemma decimal_value: "digits_value (decimal n) = n"
proof (induction n rule: decimal.induct)
  case (1 n)
  show ?case
  proof (cases "n < 10")
    case True
    then show ?thesis by (simp add: decimal_digit digits_value_def)
  next
    case False
    with 1 have "digits_value (decimal (n div 10)) = n div 10" by simp
    with False show ?thesis by (simp add: decimal_step digits_value_def)
  qed
qed

lemma decimal_digits: "\<forall>d \<in> set (decimal n). 48 \<le> d \<and> d \<le> 57"
proof (induction n rule: decimal.induct)
  case (1 n)
  show ?case
  proof (cases "n < 10")
    case True
    then show ?thesis by (simp add: decimal_digit)
  next
    case False
    with 1 have "\<forall>d \<in> set (decimal (n div 10)). 48 \<le> d \<and> d \<le> 57" by simp
    moreover have "n mod 10 \<le> 9" by simp
    ultimately show ?thesis using False by (auto simp: decimal_step)
  qed
qed

lemma decimal_no_leading_zero: "0 < n \<Longrightarrow> decimal n \<noteq> [] \<and> hd (decimal n) \<noteq> 48"
proof (induction n rule: decimal.induct)
  case (1 n)
  show ?case
  proof (cases "n < 10")
    case True
    with 1(2) show ?thesis by (simp add: decimal_digit)
  next
    case False
    then have "0 < n div 10" by simp
    with 1(1) False have "decimal (n div 10) \<noteq> [] \<and> hd (decimal (n div 10)) \<noteq> 48" by simp
    with False show ?thesis by (simp add: decimal_step)
  qed
qed

lemma decimal_shape:
  "digits_value (decimal i) = i \<and> (\<forall>d \<in> set (decimal i). 48 \<le> d \<and> d \<le> 57) \<and>
   decimal i \<noteq> [] \<and> (hd (decimal i) = 48 \<longrightarrow> decimal i = [48])"
proof (cases "i = 0")
  case True
  then show ?thesis by (simp add: decimal_digit digits_value_def)
next
  case False
  then show ?thesis
    using decimal_value [of i] decimal_digits [of i] decimal_no_leading_zero [of i] by simp
qed

lemma decimal_examples: "decimal 2 = str ''2''" "decimal 12 = str ''12''"
  by (simp_all add: decimal_digit decimal_step str_def)

lemma params_name_Some_iff:
  "params_name obj = Some v \<longleftrightarrow>
     (\<exists>params. map_of obj k_params = Some (JObj params) \<and> map_of params k_name = Some v)"
  by (auto simp: params_name_def split: option.splits json.splits)

lemma params_name_None_iff:
  "params_name obj = None \<longleftrightarrow>
     map_of obj k_params = None \<or>
     (\<exists>p. map_of obj k_params = Some p \<and> (\<forall>params. p \<noteq> JObj params)) \<or>
     (\<exists>params. map_of obj k_params = Some (JObj params) \<and> map_of params k_name = None)"
  by (auto simp: params_name_def split: option.splits json.splits)

lemma child_names_first_truthy:
  "child_names cs =
     (case find truthy (map extract_name_from_object cs) of
        Some name \<Rightarrow> name
      | None \<Rightarrow> JNull)"
  by (induction cs) (simp_all add: Let_def)

lemma extract_name_not_mapping:
  assumes "\<forall>obj. c \<noteq> JObj obj"
  shows "extract_name_from_object c = JNull"
  using assms by (cases c) simp_all

lemma find_named_children_nth:
  assumes "i < length cs"
  shows "\<exists>named. find_named_children (JArr cs) = Inr named \<and> length named = length cs \<and>
           named ! i =
             (if truthy (extract_name_from_object (cs ! i)) then extract_name_from_object (cs ! i)
              else JStr (str ''child_'' @ decimal i),
              cs ! i)"
  using assms by (simp add: find_named_children_def nth_enumerate_eq Let_def)

subsection \<open>Name resolution\<close>

text \<open>
  C1. The resolver of a child that is an object returns \<^verbatim>\<open>params.name\<close> when \<^verbatim>\<open>params\<close> is
  a mapping with an entry \<^verbatim>\<open>name\<close>; otherwise the top-level \<^verbatim>\<open>name\<close>; otherwise, when
  \<^verbatim>\<open>children\<close> is a sequence, the first non-empty result of the resolver on its entries
  in order; otherwise nothing. A child that is not an object has no name. The child at
  the zero-based position \<open>i\<close> of the original sequence is paired with the resolver's
  result, or with \<^verbatim>\<open>child_<i>\<close> when there is none, \<open>i\<close> written in decimal digits without
  a leading zero (the digit 0 alone for position 0). The child
  \<^verbatim>\<open>{"params": {"name": "A"}, "name": "B"}\<close> resolves to \<^verbatim>\<open>"A"\<close>.
\<close>

theorem name_resolution_order:
  "(params_name obj = Some v \<longleftrightarrow>
      (\<exists>params. map_of obj k_params = Some (JObj params) \<and> map_of params k_name = Some v)) \<and>
   (params_name obj = Some v \<longrightarrow> extract_name_from_object (JObj obj) = v) \<and>
   (params_name obj = None \<and> map_of obj k_name = Some v \<longrightarrow>
      extract_name_from_object (JObj obj) = v) \<and>
   (params_name obj = None \<and> map_of obj k_name = None \<and>
    map_of obj k_children = Some (JArr cs) \<longrightarrow>
      extract_name_from_object (JObj obj) =
        (case find truthy (map extract_name_from_object cs) of
           Some name \<Rightarrow> name
         | None \<Rightarrow> JNull)) \<and>
   (params_name obj = None \<and> map_of obj k_name = None \<and>
    (\<forall>cs. map_of obj k_children \<noteq> Some (JArr cs)) \<longrightarrow>
      extract_name_from_object (JObj obj) = JNull) \<and>
   ((\<forall>obj. c \<noteq> JObj obj) \<longrightarrow> extract_name_from_object c = JNull) \<and>
   (i < length cs \<longrightarrow>
      (\<exists>named. find_named_children (JArr cs) = Inr named \<and> length named = length cs \<and>
         named ! i =
           (if truthy (extract_name_from_object (cs ! i)) then extract_name_from_object (cs ! i)
            else JStr (str ''child_'' @ decimal i),
            cs ! i))) \<and>
   (i < length cs \<and> (\<forall>obj. cs ! i \<noteq> JObj obj) \<longrightarrow>
      (\<exists>named. find_named_children (JArr cs) = Inr named \<and>
         named ! i = (JStr (str ''child_'' @ decimal i), cs ! i))) \<and>
   digits_value (decimal i) = i \<and>
   (\<forall>d \<in> set (decimal i). 48 \<le> d \<and> d \<le> 57) \<and>
   decimal i \<noteq> [] \<and>
   (hd (decimal i) = 48 \<longrightarrow> decimal i = [48]) \<and>
   str ''child_'' @ decimal 2 = str ''child_2'' \<and>
   extract_name_from_object
     (JObj [(k_params, JObj [(k_name, JStr (str ''A''))]), (k_name, JStr (str ''B''))])
     = JStr (str ''A'')"
proof -
  have p1: "params_name obj = Some v \<longleftrightarrow>
      (\<exists>params. map_of obj k_params = Some (JObj params) \<and> map_of params k_name = Some v)"
    by (rule params_name_Some_iff)
  have p2: "params_name obj = Some v \<longrightarrow> extract_name_from_object (JObj obj) = v"
    by simp
  have p3: "params_name obj = None \<and> map_of obj k_name = Some v \<longrightarrow>
      extract_name_from_object (JObj obj) = v"
    by simp
  have p4: "params_name obj = None \<and> map_of obj k_name = None \<and>
    map_of obj k_children = Some (JArr cs) \<longrightarrow>
      extract_name_from_object (JObj obj) =
        (case find truthy (map extract_name_from_object cs) of
           Some name \<Rightarrow> name
         | None \<Rightarrow> JNull)"
    by (simp add: child_names_first_truthy)
  have p5: "params_name obj = None \<and> map_of obj k_name = None \<and>
    (\<forall>cs. map_of obj k_children \<noteq> Some (JArr cs)) \<longrightarrow>
      extract_name_from_object (JObj obj) = JNull"
    by (simp split: option.splits json.splits)
  have p6: "(\<forall>obj. c \<noteq> JObj obj) \<longrightarrow> extract_name_from_object c = JNull"
    using extract_name_not_mapping by blast
  have p7: "i < length cs \<longrightarrow>
      (\<exists>named. find_named_children (JArr cs) = Inr named \<and> length named = length cs \<and>
         named ! i =
           (if truthy (extract_name_from_object (cs ! i)) then extract_name_from_object (cs ! i)
            else JStr (str ''child_'' @ decimal i),
            cs ! i))"
    using find_named_children_nth by blast
  have p8: "i < length cs \<and> (\<forall>obj. cs ! i \<noteq> JObj obj) \<longrightarrow>
      (\<exists>named. find_named_children (JArr cs) = Inr named \<and>
         named ! i = (JStr (str ''child_'' @ decimal i), cs ! i))"
  proof
    assume a: "i < length cs \<and> (\<forall>obj. cs ! i \<noteq> JObj obj)"
    then have "extract_name_from_object (cs ! i) = JNull"
      using extract_name_not_mapping by blast
    with find_named_children_nth [of i cs] a
    show "\<exists>named. find_named_children (JArr cs) = Inr named \<and>
         named ! i = (JStr (str ''child_'' @ decimal i), cs ! i)"
      by auto
  qed
  have p9: "str ''child_'' @ decimal 2 = str ''child_2''"
    by (simp add: decimal_digit str_def)
  have p10: "extract_name_from_object
     (JObj [(k_params, JObj [(k_name, JStr (str ''A''))]), (k_name, JStr (str ''B''))])
     = JStr (str ''A'')"
    by (simp add: params_name_def)
  from p1 p2 p3 p4 p5 p6 p7 p8 decimal_shape [of i] p9 p10 show ?thesis
    by (intro conjI) blast+
qed

theorem name_resolution_order_witness:
  "extract_name_from_object (JObj [(k_name, JStr (str ''B''))]) = JStr (str ''B'') \<and>
   extract_name_from_object
     (JObj [(k_children, JArr [JObj [], JObj [(k_name, JStr (str ''C''))]])]) = JStr (str ''C'') \<and>
   extract_name_from_object (JObj [(k_layout, JInt 1)]) = JNull \<and>
   extract_name_from_object (JInt 3) = JNull \<and>
   (\<exists>named. find_named_children (JArr [JObj [(k_name, JStr (str ''C''))], JInt 3, JObj []])
        = Inr named \<and>
      named ! 1 = (JStr (str ''child_1''), JInt 3) \<and>
      named ! 2 = (JStr (str ''child_2''), JObj [])) \<and>
   digits_value (decimal 12) = 12 \<and> hd (decimal 12) \<noteq> 48"
proof -
  let ?c = "JObj [(k_name, JStr (str ''C''))]"
  let ?cs = "[?c, JInt 3, JObj []]"
  note t = name_resolution_order
  have b: "extract_name_from_object (JObj [(k_name, JStr (str ''B''))]) = JStr (str ''B'')"
    using t [where obj = "[(k_name, JStr (str ''B''))]" and v = "JStr (str ''B'')"
        and cs = "[]" and c = JNull and i = 0]
    by (simp add: params_name_def key_literals)
  have c: "extract_name_from_object (JObj [(k_children, JArr [JObj [], ?c])]) = JStr (str ''C'')"
    using t [where obj = "[(k_children, JArr [JObj [], ?c])]" and v = JNull
        and cs = "[JObj [], ?c]" and c = JNull and i = 0]
    by (simp add: params_name_def key_literals str_def)
  have n: "extract_name_from_object (JObj [(k_layout, JInt 1)]) = JNull"
    using t [where obj = "[(k_layout, JInt 1)]" and v = JNull and cs = "[]" and c = JNull
        and i = 0]
    by (simp add: params_name_def key_literals)
  have m: "extract_name_from_object (JInt 3) = JNull"
    using t [where obj = "[]" and v = JNull and cs = "[]" and c = "JInt 3" and i = 0]
    by simp
  have "\<exists>named. find_named_children (JArr ?cs) = Inr named \<and>
      named ! 1 = (JStr (str ''child_1''), JInt 3)"
    using t [where obj = "[]" and v = JNull and cs = ?cs and c = JNull and i = 1]
    by (auto simp: params_name_def decimal_digit str_def)
  then obtain named1 where n1: "find_named_children (JArr ?cs) = Inr named1"
    "named1 ! 1 = (JStr (str ''child_1''), JInt 3)" by blast
  have "\<exists>named. find_named_children (JArr ?cs) = Inr named \<and>
      named ! 2 = (JStr (str ''child_2''), JObj [])"
    using t [where obj = "[]" and v = JNull and cs = ?cs and c = JNull and i = 2]
    by (auto simp: params_name_def decimal_digit str_def)
  then obtain named2 where n2: "find_named_children (JArr ?cs) = Inr named2"
    "named2 ! 2 = (JStr (str ''child_2''), JObj [])" by blast
  from n1 n2 have f: "\<exists>named. find_named_children (JArr ?cs) = Inr named \<and>
      named ! 1 = (JStr (str ''child_1''), JInt 3) \<and>
      named ! 2 = (JStr (str ''child_2''), JObj [])"
    by simp
  have d: "digits_value (decimal 12) = 12 \<and> hd (decimal 12) \<noteq> 48"
    using t [where obj = "[]" and v = JNull and cs = "[]" and c = JNull and i = 12]
    by (auto simp: digits_value_def)
  from b c n m f d show ?thesis by blast
qed

text \<open>
  C2, as the specification states it: the first step applies only to a text value under
  \<^verbatim>\<open>params.name\<close>. The source has no test of the value's type. With the number 5
  under \<^verbatim>\<open>params.name\<close> and \<^verbatim>\<open>"B"\<close> under \<^verbatim>\<open>name\<close> the resolver returns 5, where the later
  steps alone give \<^verbatim>\<open>"B"\<close>.
\<close>

theorem params_name_text_only_counterexample:
  "extract_name_from_object
     (JObj [(k_params, JObj [(k_name, JInt 5)]), (k_name, JStr (str ''B''))]) = JInt 5 \<and>
   extract_name_from_object (JObj [(k_name, JStr (str ''B''))]) = JStr (str ''B'')"
  by (simp add: params_name_def key_literals)

text \<open>
  C2, amended: the first step applies exactly when \<^verbatim>\<open>params\<close> is a mapping that has the
  key \<^verbatim>\<open>name\<close>, and then the value stored there is the resolver's result whatever its
  type. When \<^verbatim>\<open>params\<close> is absent, is not a mapping or has no key \<^verbatim>\<open>name\<close>, the step does
  not apply: the result is that of the later steps, the top-level \<^verbatim>\<open>name\<close> and then the
  search through \<^verbatim>\<open>children\<close>.
\<close>

theorem params_name_step:
  "(map_of obj k_params = Some (JObj params) \<and> map_of params k_name = Some v \<longrightarrow>
      extract_name_from_object (JObj obj) = v) \<and>
   (map_of obj k_params = None \<or>
    (\<exists>p. map_of obj k_params = Some p \<and> (\<forall>params. p \<noteq> JObj params)) \<or>
    (\<exists>params. map_of obj k_params = Some (JObj params) \<and> map_of params k_name = None) \<longrightarrow>
      extract_name_from_object (JObj obj) =
        (case map_of obj k_name of
           Some name \<Rightarrow> name
         | None \<Rightarrow>
            (case map_of obj k_children of
               Some (JArr children) \<Rightarrow> child_names children
             | _ \<Rightarrow> JNull)))"
proof (intro conjI impI)
  assume "map_of obj k_params = Some (JObj params) \<and> map_of params k_name = Some v"
  then show "extract_name_from_object (JObj obj) = v"
    by (simp add: params_name_def)
next
  assume "map_of obj k_params = None \<or>
    (\<exists>p. map_of obj k_params = Some p \<and> (\<forall>params. p \<noteq> JObj params)) \<or>
    (\<exists>params. map_of obj k_params = Some (JObj params) \<and> map_of params k_name = None)"
  then have "params_name obj = None" by (simp only: params_name_None_iff)
  then show "extract_name_from_object (JObj obj) =
        (case map_of obj k_name of
           Some name \<Rightarrow> name
         | None \<Rightarrow>
            (case map_of obj k_children of
               Some (JArr children) \<Rightarrow> child_names children
             | _ \<Rightarrow> JNull))"
    by simp
qed

theorem params_name_step_witness:
  "extract_name_from_object
     (JObj [(k_params, JObj [(k_name, JBool True)]), (k_name, JStr (str ''B''))]) = JBool True \<and>
   extract_name_from_object
     (JObj [(k_params, JStr (str ''x'')), (k_name, JStr (str ''B''))]) = JStr (str ''B'') \<and>
   extract_name_from_object
     (JObj [(k_params, JObj [(k_layout, JInt 1)]), (k_name, JStr (str ''B''))]) = JStr (str ''B'')"
proof -
  have a: "extract_name_from_object
     (JObj [(k_params, JObj [(k_name, JBool True)]), (k_name, JStr (str ''B''))]) = JBool True"
    using params_name_step
      [of "[(k_params, JObj [(k_name, JBool True)]), (k_name, JStr (str ''B''))]"
          "[(k_name, JBool True)]" "JBool True"]
    by simp
  have b: "extract_name_from_object
     (JObj [(k_params, JStr (str ''x'')), (k_name, JStr (str ''B''))]) = JStr (str ''B'')"
    using params_name_step
      [of "[(k_params, JStr (str ''x'')), (k_name, JStr (str ''B''))]" "[]" JNull]
    by (simp add: key_literals)
  have c: "extract_name_from_object
     (JObj [(k_params, JObj [(k_layout, JInt 1)]), (k_name, JStr (str ''B''))]) = JStr (str ''B'')"
    using params_name_step
      [of "[(k_params, JObj [(k_layout, JInt 1)]), (k_name, JStr (str ''B''))]" "[]" JNull]
    by (simp add: key_literals)
  from a b c show ?thesis by blast
qed

text \<open>
  C10. A resolver result that Python's truth test rejects (the empty text, \<^verbatim>\<open>null\<close>,
  \<^verbatim>\<open>false\<close>, the number 0) counts as no name: the loop over a \<^verbatim>\<open>children\<close> sequence
  passes over the entry and goes on with the later ones, stopping at the first entry
  whose result passes the test, and \<^verbatim>\<open>find_named_children\<close> names the child at position
  \<open>i\<close> \<^verbatim>\<open>child_<i>\<close>, with \<open>i\<close> in decimal digits without a leading zero.
\<close>

theorem falsy_name_treated_as_absent:
  "(v \<in> {JStr [], JNull, JBool False, JInt 0} \<longrightarrow> \<not> truthy v) \<and>
   (\<not> truthy (extract_name_from_object c) \<longrightarrow> child_names (c # rest) = child_names rest) \<and>
   (truthy (extract_name_from_object c) \<longrightarrow>
      child_names (c # rest) = extract_name_from_object c) \<and>
   (i < length cs \<and> \<not> truthy (extract_name_from_object (cs ! i)) \<longrightarrow>
      (\<exists>named. find_named_children (JArr cs) = Inr named \<and>
         named ! i = (JStr (str ''child_'' @ decimal i), cs ! i))) \<and>
   digits_value (decimal i) = i \<and>
   (\<forall>d \<in> set (decimal i). 48 \<le> d \<and> d \<le> 57) \<and>
   decimal i \<noteq> [] \<and>
   (hd (decimal i) = 48 \<longrightarrow> decimal i = [48])"
proof -
  have q1: "v \<in> {JStr [], JNull, JBool False, JInt 0} \<longrightarrow> \<not> truthy v" by auto
  have q2: "\<not> truthy (extract_name_from_object c) \<longrightarrow> child_names (c # rest) = child_names rest"
    by (simp add: Let_def)
  have q3: "truthy (extract_name_from_object c) \<longrightarrow>
      child_names (c # rest) = extract_name_from_object c"
    by (simp add: Let_def)
  have q4: "i < length cs \<and> \<not> truthy (extract_name_from_object (cs ! i)) \<longrightarrow>
      (\<exists>named. find_named_children (JArr cs) = Inr named \<and>
         named ! i = (JStr (str ''child_'' @ decimal i), cs ! i))"
    using find_named_children_nth [of i cs] by auto
  from q1 q2 q3 q4 decimal_shape [of i] show ?thesis by (intro conjI) blast+
qed

theorem falsy_name_treated_as_absent_witness:
  "\<not> truthy (JInt 0) \<and>
   child_names [JObj [(k_name, JStr [])], JObj [(k_name, JStr (str ''x''))]]
     = child_names [JObj [(k_name, JStr (str ''x''))]] \<and>
   child_names [JObj [(k_name, JStr (str ''x''))]] = JStr (str ''x'') \<and>
   (\<exists>named. find_named_children
        (JArr [JObj [], JObj [(k_name, JStr (str ''x''))], JObj [(k_name, JInt 0)]]) = Inr named \<and>
      named ! 2 = (JStr (str ''child_2''), JObj [(k_name, JInt 0)])) \<and>
   digits_value (decimal 120) = 120"
proof -
  note t = falsy_name_treated_as_absent
  have a: "\<not> truthy (JInt 0)"
    using t [where v = "JInt 0" and c = JNull and rest = "[]" and i = 0 and cs = "[]"] by simp
  have b: "child_names [JObj [(k_name, JStr [])], JObj [(k_name, JStr (str ''x''))]]
     = child_names [JObj [(k_name, JStr (str ''x''))]]"
    using t [where v = JNull and c = "JObj [(k_name, JStr [])]"
        and rest = "[JObj [(k_name, JStr (str ''x''))]]" and i = 0 and cs = "[]"]
    by (simp add: params_name_def key_literals)
  have c: "child_names [JObj [(k_name, JStr (str ''x''))]] = JStr (str ''x'')"
    using t [where v = JNull and c = "JObj [(k_name, JStr (str ''x''))]" and rest = "[]"
        and i = 0 and cs = "[]"]
    by (simp add: params_name_def key_literals str_def)
  have d: "\<exists>named. find_named_children
        (JArr [JObj [], JObj [(k_name, JStr (str ''x''))], JObj [(k_name, JInt 0)]]) = Inr named \<and>
      named ! 2 = (JStr (str ''child_2''), JObj [(k_name, JInt 0)])"
    using t [where v = JNull and c = JNull and rest = "[]" and i = 2
        and cs = "[JObj [], JObj [(k_name, JStr (str ''x''))], JObj [(k_name, JInt 0)]]"]
    by (simp add: params_name_def key_literals decimal_digit str_def)
  have e: "digits_value (decimal 120) = 120"
    using t [where v = JNull and c = JNull and rest = "[]" and i = 120 and cs = "[]"] by simp
  from a b c d e show ?thesis by blast
qed

subsection \<open>File names\<close>

lemma join_kept_chars:
  "join_kept U (map (\<lambda>c. JStr [c]) s) =
     Inr (filter (\<lambda>c. isalnum U [c] \<or> [c] = str ''-'' \<or> [c] = str ''_'') s)"
  by (induction s) simp_all

lemma kept_char_iff:
  "isalnum U [c] \<or> [c] = str ''-'' \<or> [c] = str ''_'' \<longleftrightarrow>
     char_class U c = Alnum \<or> c = of_char CHR ''-'' \<or> c = of_char CHR ''_''"
  by (simp add: isalnum_def str_def)

lemma kept_char_not_space:
  assumes "char_class U c = Alnum \<or> c = of_char CHR ''-'' \<or> c = of_char CHR ''_''"
  shows "\<not> isspace U c"
  using assms by (auto simp: isspace_def char_class_def ascii_class_def)

lemma rstrip_no_space:
  assumes "\<forall>c \<in> set s. \<not> isspace U c"
  shows "rstrip U s = s"
proof -
  have "dropWhile (isspace U) (rev s) = rev s"
    using assms by (cases "rev s") auto
  then show ?thesis by (simp add: rstrip_def)
qed

text \<open>
  C3. For a text name the sanitiser keeps, in order, exactly the characters that are
  alphanumeric, a hyphen or an underscore, drops every other character, and gives
  \<^verbatim>\<open>unnamed\<close> when nothing is kept (\<^verbatim>\<open>rstrip\<close> changes nothing, since no kept character is
  white space). \<^verbatim>\<open>"My Button!#1"\<close> becomes \<^verbatim>\<open>"MyButton1"\<close>.
\<close>

theorem safe_name_of_text:
  "safe_name U (JStr name) =
     Inr (let kept = filter (\<lambda>c. char_class U c = Alnum \<or> c = of_char CHR ''-''
                                 \<or> c = of_char CHR ''_'') name
          in if kept = [] then str ''unnamed'' else kept) \<and>
   safe_name U (JStr (str ''My Button!#1'')) = Inr (str ''MyButton1'')"
proof
  let ?keep = "\<lambda>c. char_class U c = Alnum \<or> c = of_char CHR ''-'' \<or> c = of_char CHR ''_''"
  have "join_kept U (map (\<lambda>c. JStr [c]) name) = Inr (filter ?keep name)"
    by (simp add: join_kept_chars kept_char_iff)
  moreover have "rstrip U (filter ?keep name) = filter ?keep name"
    by (rule rstrip_no_space) (use kept_char_not_space in auto)
  ultimately show "safe_name U (JStr name) =
     Inr (let kept = filter ?keep name in if kept = [] then str ''unnamed'' else kept)"
    by (simp add: safe_name_def Let_def)
  show "safe_name U (JStr (str ''My Button!#1'')) = Inr (str ''MyButton1'')"
    by (simp add: safe_name_def str_def isalnum_def char_class_def ascii_class_def
        rstrip_def isspace_def)
qed

theorem safe_name_of_text_witness:
  "safe_name (\<lambda>c. Other) (JStr (str ''a b-_!'')) = Inr (str ''ab-_'') \<and>
   safe_name (\<lambda>c. Other) (JStr (str ''!! '')) = Inr (str ''unnamed'')"
  using safe_name_of_text [of "\<lambda>c. Other" "str ''a b-_!''"]
    safe_name_of_text [of "\<lambda>c. Other" "str ''!! ''"]
  by (simp add: str_def char_class_def ascii_class_def)

subsection \<open>The conversion\<close>


lemma performed_Nil: "performed W [] s = s"
  by (simp add: performed_def)

lemma performed_Cons:
  "performed W ((p, d) # ws) s = performed W ws (write_file W p d s)"
  by (simp add: performed_def write_file_def say_def stored_def map_add_upd_left)

lemma write_children_attempts:
  "write_children U W named s = (snd (attempts U named), performed W (fst (attempts U named)) s)"
proof (induction named arbitrary: s)
  case Nil
  show ?case by (simp add: performed_Nil)
next
  case (Cons nc named)
  obtain name child where nc: "nc = (name, child)" by (cases nc)
  show ?case
  proof (cases "safe_name U name")
    case (Inl e)
    with nc show ?thesis by (simp add: performed_Nil)
  next
    case (Inr safe)
    with nc Cons show ?thesis
      by (simp add: Let_def performed_Cons split: prod.splits)
  qed
qed

lemma mkdir_parents_Inr:
  assumes "mkdir_parents s = Inr s1"
  shows "s1 = s\<lparr>out_dir := Present\<rparr>"
  using assms by (auto simp: mkdir_parents_def split: dir_state.splits)


lemma layout_children_missing:
  assumes "map_of doc k_layout = None \<or>
     (\<exists>layout. map_of doc k_layout = Some (JObj layout) \<and> map_of layout k_children = None)"
  shows "layout_children (JObj doc) = Inr None"
  using assms by (auto simp: layout_children_def)



lemma files_performed:
  "files (performed W ws s) = files s ++
     map_of (rev (map (\<lambda>w. (fst w, stored (snd w))) (filter (\<lambda>w. W (fst w)) ws)))"
  by (simp add: performed_def)


lemma out_dir_performed: "out_dir (performed W ws s) = out_dir s"
  by (simp add: performed_def)





text \<open>
  C4. The specification asks that a document whose \<^verbatim>\<open>layout\<close> or \<^verbatim>\<open>children\<close> value has
  the wrong shape be reported as a schema error with nothing written. Line 65 tests the
  two keys with \<^verbatim>\<open>in\<close> and never looks at the shape, where the resolver guards each
  access with \<^verbatim>\<open>isinstance\<close>. With the text \<^verbatim>\<open>"a"\<close> under \<^verbatim>\<open>children\<close> the run succeeds and
  writes \<^verbatim>\<open>child_0.json\<close>; with the number 5 under \<^verbatim>\<open>layout\<close> it ends in a \<^verbatim>\<open>TypeError\<close>
  that nothing handles.
\<close>

theorem wrong_shape_not_reported:
  "convert_ui_json_to_multiple_files ascii_only (\<lambda>p. True) load_complete
     (Elsewhere (Loaded (JObj [(k_layout, JObj [(k_children, JStr (str ''a''))])]))) initial
   = (Returned True,
      \<lparr>files = [str ''child_0.json'' \<mapsto> Text (child_data (JStr (str ''a'')))],
       out_dir = Present,
       printed = [FoundMsg 1, CreatedMsg (str ''child_0.json''), CompletedMsg]\<rparr>) \<and>
   convert_ui_json_to_multiple_files ascii_only (\<lambda>p. True) load_complete
     (Elsewhere (Loaded (JObj [(k_layout, JInt 5)]))) initial
   = (Raised TypeError, initial\<lparr>out_dir := Present\<rparr>)"
  by (simp add: convert_ui_json_to_multiple_files_def read_input_def mkdir_parents_def
      layout_children_def find_named_children_def safe_name_def key_literals initial_def
      say_def str_def decimal_digit isalnum_def char_class_def ascii_class_def rstrip_def
      isspace_def params_name_def Let_def write_file_def child_data_def surrogate_def)

text \<open>
  Where the parsed document is a mapping that lacks the key \<^verbatim>\<open>layout\<close>, or whose
  \<^verbatim>\<open>layout\<close> is a mapping that lacks the key \<^verbatim>\<open>children\<close>, and \<^verbatim>\<open>mkdir\<close> does not raise, the
  conversion prints the schema error and returns failure, and no file changes.
\<close>

lemma missing_key_reported:
  assumes "read_input L input s = Loaded (JObj doc)"
    and "mkdir_parents s = Inr s1"
    and "map_of doc k_layout = None \<or>
     (\<exists>layout. map_of doc k_layout = Some (JObj layout) \<and> map_of layout k_children = None)"
  shows "convert_ui_json_to_multiple_files U W L input s =
     (Returned False, s\<lparr>out_dir := Present, printed := printed s @ [SchemaErrorMsg]\<rparr>)"
  using layout_children_missing [OF assms(3)] assms(1) mkdir_parents_Inr [OF assms(2)] assms(2)
  by (simp add: convert_ui_json_to_multiple_files_def say_def)




subsection \<open>What a written file holds\<close>





lemma write_children_append:
  "write_children U W (xs @ ys) s =
     (case write_children U W xs s of
        (Some e, s') \<Rightarrow> (Some e, s')
      | (None, s') \<Rightarrow> write_children U W ys s')"
proof (induction xs arbitrary: s)
  case Nil
  show ?case by simp
next
  case (Cons nc xs)
  obtain name child where nc: "nc = (name, child)" by (cases nc)
  show ?case
    unfolding nc by (cases "safe_name U name") (simp_all add: Cons.IH Let_def)
qed

lemma write_children_all_safe:
  assumes "\<forall>nc \<in> set xs. \<exists>safe. safe_name U (fst nc) = Inr safe"
  shows "fst (write_children U W xs s) = None"
  using assms
proof (induction xs arbitrary: s)
  case Nil
  show ?case by simp
next
  case (Cons nc xs)
  obtain name child where nc: "nc = (name, child)" by (cases nc)
  from Cons.prems nc obtain safe where "safe_name U name = Inr safe" by auto
  moreover from Cons.prems have "\<forall>nc \<in> set xs. \<exists>safe. safe_name U (fst nc) = Inr safe" by simp
  ultimately show ?case unfolding nc by (simp add: Cons.IH Let_def)
qed




subsection \<open>Results and exit status\<close>

lemma mkdir_parents_Inl: "mkdir_parents s = Inl e \<longleftrightarrow> out_dir s = Blocked e"
  by (auto simp: mkdir_parents_def split: dir_state.splits)

lemma mkdir_parents_cong:
  assumes "out_dir s = out_dir t"
  shows "mkdir_parents s = Inl e \<longleftrightarrow> mkdir_parents t = Inl e"
  using assms by (simp add: mkdir_parents_Inl)

lemma mkdir_parents_Present:
  assumes "out_dir s = Present"
  shows "mkdir_parents s = Inr s"
  using assms by (simp add: mkdir_parents_def)

lemma convert_outcome:
  "fst (convert_ui_json_to_multiple_files U W L input s) =
     (case read_input L input s of
        FileNotFound \<Rightarrow> Returned False
      | InvalidJSON \<Rightarrow> Returned False
      | ReadRaised e \<Rightarrow> Raised e
      | Loaded data \<Rightarrow>
          (case mkdir_parents s of
             Inl e \<Rightarrow> Raised e
           | Inr s1 \<Rightarrow> document_outcome U data))"
  by (simp add: convert_ui_json_to_multiple_files_def document_outcome_def
      write_children_attempts
      split: read_result.splits sum.splits option.splits)

lemma convert_files_Loaded:
  assumes "read_input L input s = Loaded data"
  shows "files (snd (convert_ui_json_to_multiple_files U W L input s)) =
     (case mkdir_parents s of
        Inl e \<Rightarrow> files s
      | Inr s1 \<Rightarrow> files s ++ map_of (rev (map (\<lambda>w. (fst w, stored (snd w)))
                     (filter (\<lambda>w. W (fst w)) (document_attempts U data)))))"
proof (cases "mkdir_parents s")
  case (Inl e)
  with assms show ?thesis by (simp add: convert_ui_json_to_multiple_files_def)
next
  case (Inr s1)
  have s1: "files s1 = files s" using mkdir_parents_Inr [OF Inr] by simp
  with assms Inr show ?thesis
    by (simp add: convert_ui_json_to_multiple_files_def document_attempts_def
        write_children_attempts files_performed say_def
        split: sum.splits option.splits)
qed

lemma convert_files_not_Loaded:
  assumes "\<forall>data. read_input L input s \<noteq> Loaded data"
  shows "files (snd (convert_ui_json_to_multiple_files U W L input s)) = files s"
  using assms
  by (cases "read_input L input s")
    (simp_all add: convert_ui_json_to_multiple_files_def say_def)

lemma convert_out_dir:
  "out_dir (snd (convert_ui_json_to_multiple_files U W L input s)) =
     (case read_input L input s of
        Loaded data \<Rightarrow> (case mkdir_parents s of Inl e \<Rightarrow> out_dir s | Inr s1 \<Rightarrow> Present)
      | _ \<Rightarrow> out_dir s)"
proof (cases "read_input L input s")
  case (Loaded data)
  show ?thesis
  proof (cases "mkdir_parents s")
    case (Inl e)
    with Loaded show ?thesis by (simp add: convert_ui_json_to_multiple_files_def)
  next
    case (Inr s1)
    have "out_dir s1 = Present" using mkdir_parents_Inr [OF Inr] by simp
    with Loaded Inr show ?thesis
      by (simp add: convert_ui_json_to_multiple_files_def write_children_attempts
          out_dir_performed say_def split: sum.splits option.splits)
  qed
qed (simp_all add: convert_ui_json_to_multiple_files_def say_def)

lemma main_exit_status:
  "fst (main U W L input s) =
     (if fst (convert_ui_json_to_multiple_files U W L input s) = Returned True then 0 else 1)"
proof -
  let ?t = "say HeaderMsg s"
  have rd: "read_input L input ?t = read_input L input s"
    by (cases input) (simp_all add: read_input_def say_def)
  have "out_dir ?t = out_dir s" by (simp add: say_def)
  then have "(case mkdir_parents ?t of Inl e \<Rightarrow> Raised e | Inr s1 \<Rightarrow> document_outcome U data)
      = (case mkdir_parents s of Inl e \<Rightarrow> Raised e | Inr s1 \<Rightarrow> document_outcome U data)"
    for data
    by (simp add: mkdir_parents_def split: dir_state.splits)
  then have same: "fst (convert_ui_json_to_multiple_files U W L input ?t)
      = fst (convert_ui_json_to_multiple_files U W L input s)"
    by (simp add: convert_outcome rd split: read_result.splits)
  obtain r s' where c: "convert_ui_json_to_multiple_files U W L input ?t = (r, s')"
    by (cases "convert_ui_json_to_multiple_files U W L input ?t")
  with same have "fst (convert_ui_json_to_multiple_files U W L input s) = r" by simp
  with c show ?thesis
    by (cases r) (auto simp: main_def)
qed






subsection \<open>Running twice\<close>

lemma map_add_twice: "(m ++ n) ++ n = m ++ n"
  by (simp add: map_add_def fun_eq_iff split: option.splits)

text \<open>
  C8, as the specification states it: a second run on the same input path and output
  directory leaves the same files. The input path may name a file of the output
  directory. Let \<^verbatim>\<open>child_1.json\<close> there hold \<^verbatim>\<open>{"layout": {"children": [1, 2]}}\<close> and be
  the input. The first run writes \<^verbatim>\<open>child_0.json\<close> with the child 1 and \<^verbatim>\<open>child_1.json\<close>
  with the child 2, over its own input; the second run reads a document of one child
  and writes \<^verbatim>\<open>child_0.json\<close> with the child 2.
\<close>

theorem conversion_idempotent_counterexample:
  "files (snd (convert_ui_json_to_multiple_files ascii_only (\<lambda>p. True) load_complete
       (In_output_dir (str ''child_1.json''))
       \<lparr>files = [str ''child_1.json'' \<mapsto> Text (layout_doc [JInt 1, JInt 2])],
        out_dir = Present, printed = []\<rparr>)) (str ''child_0.json'')
     = Some (Text (child_data (JInt 1))) \<and>
   files (snd (convert_ui_json_to_multiple_files ascii_only (\<lambda>p. True) load_complete
       (In_output_dir (str ''child_1.json''))
       (snd (convert_ui_json_to_multiple_files ascii_only (\<lambda>p. True) load_complete
          (In_output_dir (str ''child_1.json''))
          \<lparr>files = [str ''child_1.json'' \<mapsto> Text (layout_doc [JInt 1, JInt 2])],
           out_dir = Present, printed = []\<rparr>)))) (str ''child_0.json'')
     = Some (Text (child_data (JInt 2)))"
  by (simp add: convert_ui_json_to_multiple_files_def read_input_def mkdir_parents_def
      layout_children_def layout_doc_def find_named_children_def safe_name_def key_literals
      say_def str_def decimal_digit isalnum_def char_class_def ascii_class_def
      rstrip_def isspace_def Let_def write_file_def child_data_def
      surrogate_def load_complete_def)

text \<open>
  C8, amended: when the first run leaves the input file as it was, so that the second
  run reads what the first one read, the second run, in the same environment and on the
  files the first run left, ends with the same outcome and leaves every file as the
  first run left it. Files hold texts that the written value and its key order
  determine.
\<close>

theorem conversion_idempotent:
  assumes same: "read_input L input (snd (convert_ui_json_to_multiple_files U W L input s))
      = read_input L input s"
  shows "files (snd (convert_ui_json_to_multiple_files U W L input
                 (snd (convert_ui_json_to_multiple_files U W L input s))))
     = files (snd (convert_ui_json_to_multiple_files U W L input s)) \<and>
   fst (convert_ui_json_to_multiple_files U W L input
          (snd (convert_ui_json_to_multiple_files U W L input s)))
     = fst (convert_ui_json_to_multiple_files U W L input s)"
proof -
  let ?s1 = "snd (convert_ui_json_to_multiple_files U W L input s)"
  show ?thesis
  proof (cases "\<exists>data. read_input L input s = Loaded data")
    case False
    then have n: "\<forall>data. read_input L input s \<noteq> Loaded data" by simp
    with same have n1: "\<forall>data. read_input L input ?s1 \<noteq> Loaded data" by simp
    have "files (snd (convert_ui_json_to_multiple_files U W L input ?s1)) = files ?s1"
      by (rule convert_files_not_Loaded [OF n1])
    moreover have "fst (convert_ui_json_to_multiple_files U W L input ?s1)
        = fst (convert_ui_json_to_multiple_files U W L input s)"
      using n same by (cases "read_input L input s") (simp_all add: convert_outcome)
    ultimately show ?thesis by simp
  next
    case True
    then obtain data where rd: "read_input L input s = Loaded data" by blast
    with same have rd1: "read_input L input ?s1 = Loaded data" by simp
    show ?thesis
    proof (cases "mkdir_parents s")
      case (Inl e)
      then have "out_dir ?s1 = out_dir s" by (simp add: convert_out_dir rd)
      with Inl have mk1: "mkdir_parents ?s1 = Inl e" by (simp add: mkdir_parents_Inl)
      from Inl mk1 rd rd1 show ?thesis
        by (simp add: convert_files_Loaded [OF rd1] convert_files_Loaded [OF rd]
            convert_outcome)
    next
      case (Inr s0)
      then have "out_dir ?s1 = Present" by (simp add: convert_out_dir rd)
      then have mk1: "mkdir_parents ?s1 = Inr ?s1" by (rule mkdir_parents_Present)
      from Inr mk1 rd rd1 show ?thesis
        by (simp add: convert_files_Loaded [OF rd1] convert_files_Loaded [OF rd]
            convert_outcome map_add_twice)
    qed
  qed
qed

theorem conversion_idempotent_witness:
  "files (snd (convert_ui_json_to_multiple_files ascii_only (\<lambda>p. True) load_complete
     (Elsewhere (Loaded (layout_doc [JObj [(k_name, JStr (str ''x'')), (k_layout, JInt 1)],
                          JObj [(k_name, JStr (str ''x'')), (k_layout, JInt 2)]])))
     (snd (convert_ui_json_to_multiple_files ascii_only (\<lambda>p. True) load_complete
        (Elsewhere (Loaded (layout_doc [JObj [(k_name, JStr (str ''x'')), (k_layout, JInt 1)],
                             JObj [(k_name, JStr (str ''x'')), (k_layout, JInt 2)]])))
        initial)))) (str ''x.json'')
   = Some (Text (child_data (JObj [(k_name, JStr (str ''x'')), (k_layout, JInt 2)])))"
proof -
  let ?D = "Elsewhere (Loaded (layout_doc [JObj [(k_name, JStr (str ''x'')), (k_layout, JInt 1)],
                                JObj [(k_name, JStr (str ''x'')), (k_layout, JInt 2)]]))"
  let ?run = "convert_ui_json_to_multiple_files ascii_only (\<lambda>p. True) load_complete ?D"
  have once: "files (snd (?run initial)) (str ''x.json'')
    = Some (Text (child_data (JObj [(k_name, JStr (str ''x'')), (k_layout, JInt 2)])))"
    by (simp add: convert_ui_json_to_multiple_files_def read_input_def mkdir_parents_def
      layout_children_def layout_doc_def find_named_children_def safe_name_def key_literals
      initial_def say_def str_def isalnum_def char_class_def ascii_class_def rstrip_def
      isspace_def params_name_def Let_def write_file_def child_data_def surrogate_def)
  have same: "read_input load_complete ?D (snd (?run initial))
      = read_input load_complete ?D initial"
    by (simp add: read_input_def)
  from conversion_idempotent [OF same]
  have "files (snd (?run (snd (?run initial)))) = files (snd (?run initial))"
    by (rule conjunct1)
  with once show ?thesis by simp
qed

subsection \<open>Names that are not text\<close>

text \<open>
  C9. Let the document be read and parsed and \<^verbatim>\<open>mkdir\<close> succeed, let the child at
  position \<open>i\<close> of a \<^verbatim>\<open>layout.children\<close> sequence resolve to a value that passes the truth
  test and cannot be iterated (a number other than 0, or \<^verbatim>\<open>true\<close>), and let the
  sanitiser return a name for every earlier child. Then line 77 raises \<^verbatim>\<open>TypeError\<close>
  outside the \<^verbatim>\<open>try\<close>: the conversion does not return, the state is the one the loop
  reached after the first \<open>i\<close> children, so neither this child's file nor a later one is
  written and no failure line is printed for it, and the process exits with 1. An
  instance is a document of three children with the number 5 under \<^verbatim>\<open>params.name\<close> of
  the second: only the first child's file exists afterwards.
\<close>

theorem non_text_name_aborts_run:
  assumes rd: "read_input L input s = Loaded data"
    and mk: "mkdir_parents s = Inr s1"
    and lc: "layout_children data = Inr (Some (JArr cs))"
    and named: "find_named_children (JArr cs) = Inr named"
    and i: "i < length cs"
    and truthy: "truthy (extract_name_from_object (cs ! i))"
    and not_iter: "py_iter (extract_name_from_object (cs ! i)) = Inl TypeError"
    and before: "\<forall>j < i. \<exists>safe. safe_name U (fst (named ! j)) = Inr safe"
  shows "convert_ui_json_to_multiple_files U W L input s =
       (Raised TypeError,
        snd (write_children U W (take i named) (say (FoundMsg (length cs)) s1))) \<and>
     fst (write_children U W (take i named) (say (FoundMsg (length cs)) s1)) = None \<and>
     s1 = s\<lparr>out_dir := Present\<rparr> \<and>
     fst (main U W L input s) = 1"
proof -
  let ?s1 = "say (FoundMsg (length cs)) s1"
  from find_named_children_nth [OF i] named
  have len: "length named = length cs"
    and nth: "named ! i = (extract_name_from_object (cs ! i), cs ! i)"
    using truthy by auto
  have split: "named = take i named @ named ! i # drop (Suc i) named"
    using i len by (simp add: id_take_nth_drop)
  have "\<forall>nc \<in> set (take i named). \<exists>safe. safe_name U (fst nc) = Inr safe"
  proof
    fix nc assume "nc \<in> set (take i named)"
    then obtain j where "j < i" "j < length named" "nc = named ! j"
      by (auto simp: in_set_conv_nth)
    with before show "\<exists>safe. safe_name U (fst nc) = Inr safe" by simp
  qed
  then have pre: "fst (write_children U W (take i named) ?s1) = None"
    by (rule write_children_all_safe)
  then obtain s2 where s2: "write_children U W (take i named) ?s1 = (None, s2)"
    by (cases "write_children U W (take i named) ?s1") simp
  have "safe_name U (extract_name_from_object (cs ! i)) = Inl TypeError"
    using not_iter by (simp add: safe_name_def)
  then have "write_children U W (named ! i # drop (Suc i) named) s2 = (Some TypeError, s2)"
    unfolding nth by simp
  then have "write_children U W (take i named @ named ! i # drop (Suc i) named) ?s1
      = (Some TypeError, s2)"
    unfolding write_children_append s2 by simp
  then have run: "write_children U W named ?s1 = (Some TypeError, s2)"
    using split by simp
  have conv: "convert_ui_json_to_multiple_files U W L input s = (Raised TypeError, s2)"
    using rd mk lc named run len by (simp add: convert_ui_json_to_multiple_files_def)
  then have "fst (main U W L input s) = 1"
    by (simp add: main_exit_status)
  with conv pre s2 mkdir_parents_Inr [OF mk] show ?thesis by simp
qed

theorem non_text_name_aborts_run_witness:
  "convert_ui_json_to_multiple_files ascii_only (\<lambda>p. True) load_complete
     (Elsewhere (Loaded (layout_doc
        [JObj [(k_name, JStr (str ''a''))],
         JObj [(k_params, JObj [(k_name, JInt 5)])],
         JObj [(k_name, JStr (str ''b''))]]))) initial
   = (Raised TypeError,
      \<lparr>files = [str ''a.json'' \<mapsto> Text (child_data (JObj [(k_name, JStr (str ''a''))]))],
       out_dir = Present,
       printed = [FoundMsg 3, CreatedMsg (str ''a.json'')]\<rparr>) \<and>
   fst (main ascii_only (\<lambda>p. True) load_complete
     (Elsewhere (Loaded (layout_doc
        [JObj [(k_name, JStr (str ''a''))],
         JObj [(k_params, JObj [(k_name, JInt 5)])],
         JObj [(k_name, JStr (str ''b''))]]))) initial) = 1"
proof -
  let ?a = "JObj [(k_name, JStr (str ''a''))]"
  let ?five = "JObj [(k_params, JObj [(k_name, JInt 5)])]"
  let ?b = "JObj [(k_name, JStr (str ''b''))]"
  let ?cs = "[?a, ?five, ?b]"
  let ?named = "[(JStr (str ''a''), ?a), (JInt 5, ?five), (JStr (str ''b''), ?b)]"
  have rd: "read_input load_complete (Elsewhere (Loaded (layout_doc ?cs))) initial
      = Loaded (layout_doc ?cs)"
    by (simp add: read_input_def)
  have mk: "mkdir_parents initial = Inr (initial\<lparr>out_dir := Present\<rparr>)"
    by (simp add: mkdir_parents_def initial_def)
  have lc: "layout_children (layout_doc ?cs) = Inr (Some (JArr ?cs))"
    by (simp add: layout_children_def layout_doc_def)
  have named: "find_named_children (JArr ?cs) = Inr ?named"
    by (simp add: find_named_children_def params_name_def key_literals str_def Let_def)
  have i: "1 < length ?cs" by simp
  have t: "truthy (extract_name_from_object (?cs ! 1))"
    by (simp add: params_name_def)
  have n: "py_iter (extract_name_from_object (?cs ! 1)) = Inl TypeError"
    by (simp add: params_name_def)
  have b: "\<forall>j < 1. \<exists>safe. safe_name ascii_only (fst (?named ! j)) = Inr safe"
    by (simp add: safe_name_def str_def Let_def)
  from non_text_name_aborts_run [OF rd mk lc named i t n b, of "\<lambda>p. True"]
  show ?thesis
    by (simp add: safe_name_def str_def Let_def isalnum_def char_class_def ascii_class_def
        rstrip_def isspace_def initial_def say_def write_file_def child_data_def
        key_literals surrogate_def)
qed

end
